theory Spec2Isabelle
  imports Main "HOL-Library.Word" "HOL-Library.Log_Nat"
begin

unbundle bit_operations_syntax

section \<open>JavaScript values\<close>

text \<open>
  The utility module \<^verbatim>\<open>src/functions.js\<close> is dynamically typed: every exported function
  first inspects the type of its arguments. The model therefore works on a datatype of
  JavaScript values. A string is its sequence of UTF-16 code units, a Number is the bit
  pattern of an IEEE-754 binary64 value, and an array carries its elements. Only arrays
  of Numbers are represented: \<^verbatim>\<open>analyzeArray\<close>, the one consumer of arrays, is specified
  for numeric arrays only.
\<close>

type_synonym code_unit = "16 word"
type_synonym jsstring = "code_unit list"
type_synonym double = "64 word"

datatype jsvalue =
    JUndefined
  | JNull
  | JBool bool
  | JNum double
  | JBigInt int
  | JStr jsstring
  | JSymbol
  | JFun
  | JArr "double list"
  | JObj

text \<open>
  The exceptions, each with its message: the TypeError and the plain Error that the module
  throws itself, and the RangeError that the engine throws when a call is given more
  arguments than it accepts.
\<close>

datatype error = TypeError string | Error string | RangeError string

text \<open>An ASCII literal of the source as a sequence of code units.\<close>

definition lit :: "string \<Rightarrow> jsstring" where
  "lit s = map (\<lambda>c. of_nat (of_char c)) s"

text \<open>The \<^verbatim>\<open>typeof\<close> operator.\<close>

fun typeof :: "jsvalue \<Rightarrow> string" where
  "typeof JUndefined = ''undefined''"
| "typeof JNull = ''object''"
| "typeof (JBool _) = ''boolean''"
| "typeof (JNum _) = ''number''"
| "typeof (JBigInt _) = ''bigint''"
| "typeof (JStr _) = ''string''"
| "typeof JSymbol = ''symbol''"
| "typeof JFun = ''function''"
| "typeof (JArr _) = ''object''"
| "typeof JObj = ''object''"

section \<open>Numbers\<close>

text \<open>
  A Number is an IEEE-754 binary64 value, kept as its 64-bit pattern: one sign bit, eleven
  bits of biased exponent and 52 bits of fraction. The exponent 2047 encodes the
  infinities (fraction zero) and the NaNs; the exponent 0 encodes the two zeros and the
  subnormal numbers.
\<close>

definition sign_of :: "double \<Rightarrow> bool" where
  "sign_of d = (2 ^ 63 \<le> uint d)"

definition exponent_of :: "double \<Rightarrow> int" where
  "exponent_of d = uint d div 2 ^ 52 mod 2048"

definition fraction_of :: "double \<Rightarrow> int" where
  "fraction_of d = uint d mod 2 ^ 52"

definition is_nan :: "double \<Rightarrow> bool" where
  "is_nan d = (exponent_of d = 2047 \<and> fraction_of d \<noteq> 0)"

definition is_inf :: "double \<Rightarrow> bool" where
  "is_inf d = (exponent_of d = 2047 \<and> fraction_of d = 0)"

definition is_zero :: "double \<Rightarrow> bool" where
  "is_zero d = (exponent_of d = 0 \<and> fraction_of d = 0)"

definition NaN :: double where "NaN = 0x7FF8000000000000"
definition pos_inf :: double where "pos_inf = 0x7FF0000000000000"
definition pos_zero :: double where "pos_zero = 0"
definition neg_zero :: double where "neg_zero = 0x8000000000000000"

text \<open>
  The mathematical value of a bit pattern. On an infinity the formula yields
  \<open>\<plusminus> 2 ^ 1024\<close>, which lies beyond every finite Number, so comparisons can use it
  for all patterns that are not NaN.
\<close>

definition pow2 :: "int \<Rightarrow> rat" where
  "pow2 e = (if 0 \<le> e then 2 ^ nat e else 1 / 2 ^ nat (- e))"

definition magnitude :: "double \<Rightarrow> rat" where
  "magnitude d =
     (if exponent_of d = 0 then of_int (fraction_of d) * pow2 (- 1074)
      else of_int (2 ^ 52 + fraction_of d) * pow2 (exponent_of d - 1075))"

definition valof :: "double \<Rightarrow> rat" where
  "valof d = (if sign_of d then - magnitude d else magnitude d)"

text \<open>
  Rounding a non-negative rational to the nearest Number, ties to the even fraction.
  \<open>floor_log2 q\<close> is the exponent \<open>k\<close> with \<open>2 ^ k \<le> q < 2 ^ (k + 1)\<close>; below the
  normal range the exponent stays at \<open>- 1022\<close> (subnormal results). A result at or
  beyond \<open>2 ^ 1024\<close> is the infinity.
\<close>

definition with_sign :: "bool \<Rightarrow> double \<Rightarrow> double" where
  "with_sign s d = (if s then d + 0x8000000000000000 else d)"

definition floor_log2 :: "rat \<Rightarrow> int" where
  "floor_log2 q =
     (let (n, d) = quotient_of q; t = bitlen n - bitlen d
      in if pow2 t \<le> q then t else t - 1)"

definition round_half_even :: "rat \<Rightarrow> int" where
  "round_half_even q =
     (let f = \<lfloor>q\<rfloor>; r = q - of_int f
      in if r < 1 / 2 then f else if 1 / 2 < r then f + 1 else if even f then f else f + 1)"

definition round_magnitude :: "rat \<Rightarrow> double" where
  "round_magnitude q =
     (if q = 0 then 0
      else let e = max (floor_log2 q) (- 1022);
               m = round_half_even (q / pow2 (e - 52));
               bits = (e + 1022) * 2 ^ 52 + m
           in if bits \<ge> 0x7FF0000000000000 then pos_inf else word_of_int bits)"

definition to_double :: "bool \<Rightarrow> rat \<Rightarrow> double" where
  "to_double s q = with_sign s (round_magnitude q)"

definition double_of_int :: "int \<Rightarrow> double" where
  "double_of_int n = to_double (n < 0) \<bar>of_int n\<bar>"

text \<open>The operators \<^verbatim>\<open>+\<close>, unary \<^verbatim>\<open>-\<close>, binary \<^verbatim>\<open>-\<close>, \<^verbatim>\<open>*\<close>, \<^verbatim>\<open>/\<close> and \<^verbatim>\<open><\<close> on Numbers.\<close>

definition js_add :: "double \<Rightarrow> double \<Rightarrow> double" where
  "js_add x y =
     (if is_nan x \<or> is_nan y then NaN
      else if is_inf x then (if is_inf y \<and> sign_of x \<noteq> sign_of y then NaN else x)
      else if is_inf y then y
      else let s = valof x + valof y
           in if s = 0 then (if sign_of x \<and> sign_of y then neg_zero else pos_zero)
              else to_double (s < 0) \<bar>s\<bar>)"

definition js_neg :: "double \<Rightarrow> double" where
  "js_neg x = (if is_nan x then NaN else x + 0x8000000000000000)"

definition js_sub :: "double \<Rightarrow> double \<Rightarrow> double" where
  "js_sub x y = js_add x (js_neg y)"

definition js_mul :: "double \<Rightarrow> double \<Rightarrow> double" where
  "js_mul x y =
     (if is_nan x \<or> is_nan y then NaN
      else if (is_inf x \<and> is_zero y) \<or> (is_zero x \<and> is_inf y) then NaN
      else if is_inf x \<or> is_inf y then with_sign (sign_of x \<noteq> sign_of y) pos_inf
      else to_double (sign_of x \<noteq> sign_of y) (magnitude x * magnitude y))"

definition js_div :: "double \<Rightarrow> double \<Rightarrow> double" where
  "js_div x y =
     (if is_nan x \<or> is_nan y then NaN
      else if (is_inf x \<and> is_inf y) \<or> (is_zero x \<and> is_zero y) then NaN
      else if is_inf x \<or> is_zero y then with_sign (sign_of x \<noteq> sign_of y) pos_inf
      else if is_inf y then with_sign (sign_of x \<noteq> sign_of y) pos_zero
      else to_double (sign_of x \<noteq> sign_of y) (magnitude x / magnitude y))"


text \<open>
  Truthiness (the conversion \<^verbatim>\<open>!x\<close> negates): \<^verbatim>\<open>undefined\<close>, \<^verbatim>\<open>null\<close>, \<^verbatim>\<open>false\<close>, both
  zeros, NaN, the BigInt zero and the empty string are falsy, everything else is truthy.
\<close>

fun ToBoolean :: "jsvalue \<Rightarrow> bool" where
  "ToBoolean JUndefined = False"
| "ToBoolean JNull = False"
| "ToBoolean (JBool b) = b"
| "ToBoolean (JNum d) = (\<not> is_zero d \<and> \<not> is_nan d)"
| "ToBoolean (JBigInt n) = (n \<noteq> 0)"
| "ToBoolean (JStr s) = (s \<noteq> [])"
| "ToBoolean JSymbol = True"
| "ToBoolean JFun = True"
| "ToBoolean (JArr _) = True"
| "ToBoolean JObj = True"

text \<open>\<^verbatim>\<open>v === 0\<close>: a Number that is one of the two zeros.\<close>

fun strict_equals_zero :: "jsvalue \<Rightarrow> bool" where
  "strict_equals_zero (JNum d) = is_zero d"
| "strict_equals_zero _ = False"

text \<open>
  \<^verbatim>\<open>Number.isInteger\<close>, and the integer an integral Number denotes.
\<close>

fun isInteger :: "jsvalue \<Rightarrow> bool" where
  "isInteger (JNum d) = (\<not> is_nan d \<and> \<not> is_inf d \<and> valof d = of_int \<lfloor>valof d\<rfloor>)"
| "isInteger _ = False"

definition integer_of :: "double \<Rightarrow> int" where
  "integer_of d = \<lfloor>valof d\<rfloor>"

section \<open>capitalize\<close>

text \<open>
  \<^verbatim>\<open>String.prototype.toUpperCase\<close> applied to a string of one code unit. The Unicode
  case mapping is written out for Basic Latin and Latin-1 (code units below 0x100):
  \<^verbatim>\<open>a-z\<close> and the accented letters 0xE0-0xFE except the division sign 0xF7 move down
  by 0x20, the micro sign 0xB5 maps to the Greek capital mu 0x39C, the letter 0xFF maps to
  0x178, and the sharp s 0xDF maps to the two code units \<^verbatim>\<open>SS\<close>. The mapping of the
  remaining code units is the parameter \<open>tbl\<close> (the rest of the Unicode table of the
  runtime).
\<close>

definition toUpperCase_unit :: "(code_unit \<Rightarrow> jsstring) \<Rightarrow> code_unit \<Rightarrow> jsstring" where
  "toUpperCase_unit tbl c =
     (if 0x61 \<le> c \<and> c \<le> 0x7A then [c - 0x20]
      else if c = 0xB5 then [0x39C]
      else if c = 0xDF then [0x53, 0x53]
      else if 0xE0 \<le> c \<and> c \<le> 0xFE \<and> c \<noteq> 0xF7 then [c - 0x20]
      else if c = 0xFF then [0x178]
      else if c < 0x100 then [c]
      else tbl c)"

definition capitalize :: "(code_unit \<Rightarrow> jsstring) \<Rightarrow> jsvalue \<Rightarrow> error + jsvalue" where
  "capitalize tbl string =
     (case string of
        JStr s \<Rightarrow>
          (case s of
             [] \<Rightarrow> Inr (JStr [])
           | c # rest \<Rightarrow> Inr (JStr (toUpperCase_unit tbl c @ rest)))
      | _ \<Rightarrow> Inl (TypeError ''capitalize expects a string''))"

section \<open>reverseString\<close>

text \<open>
  The loop \<^verbatim>\<open>for (let i = string.length - 1; i >= 0; i--) reversed += string[i]\<close>, with
  the index a signed integer as in the source. \<^verbatim>\<open>string[i]\<close> is the string of the one
  code unit at \<open>i\<close>; outside the string it is \<^verbatim>\<open>undefined\<close>, which \<^verbatim>\<open>+=\<close> appends as
  the text \<^verbatim>\<open>undefined\<close>.
\<close>

definition index_string :: "jsstring \<Rightarrow> int \<Rightarrow> jsstring" where
  "index_string string i =
     (if 0 \<le> i \<and> i < int (length string) then [string ! nat i] else lit ''undefined'')"

function reverse_loop :: "jsstring \<Rightarrow> int \<Rightarrow> jsstring \<Rightarrow> jsstring" where
  "reverse_loop string i reversed =
     (if i \<ge> 0 then reverse_loop string (i - 1) (reversed @ index_string string i) else reversed)"
  by pat_completeness auto
termination
  by (relation "measure (\<lambda>(string, i, reversed). nat (i + 1))") auto

definition reverseString :: "jsvalue \<Rightarrow> error + jsvalue" where
  "reverseString string =
     (case string of
        JStr s \<Rightarrow> Inr (JStr (reverse_loop s (int (length s) - 1) []))
      | _ \<Rightarrow> Inl (TypeError ''capitalize expects a string''))"

section \<open>calculator\<close>

text \<open>
  An arithmetic operator applied to two values that are both Numbers. In the calculator
  the guard in front of every operator lets no other pair of operands through.
\<close>

fun number_op :: "(double \<Rightarrow> double \<Rightarrow> double) \<Rightarrow> jsvalue \<Rightarrow> jsvalue \<Rightarrow> jsvalue" where
  "number_op f (JNum a) (JNum b) = JNum (f a b)"
| "number_op f _ _ = JUndefined"

definition calculator_add :: "jsvalue \<Rightarrow> jsvalue \<Rightarrow> error + jsvalue" where
  "calculator_add num1 num2 =
     (if \<not> ToBoolean num1 \<or> \<not> ToBoolean num2 \<or>
         typeof num1 \<noteq> ''number'' \<or> typeof num2 \<noteq> ''number''
      then Inl (TypeError ''add expects 2 numbers'')
      else Inr (number_op js_add num1 num2))"

definition calculator_subtract :: "jsvalue \<Rightarrow> jsvalue \<Rightarrow> error + jsvalue" where
  "calculator_subtract num1 num2 =
     (if \<not> ToBoolean num1 \<or> \<not> ToBoolean num2 \<or>
         typeof num1 \<noteq> ''number'' \<or> typeof num2 \<noteq> ''number''
      then Inl (TypeError ''subtract expects 2 numbers'')
      else Inr (number_op js_sub num1 num2))"

definition calculator_divide :: "jsvalue \<Rightarrow> jsvalue \<Rightarrow> error + jsvalue" where
  "calculator_divide num1 num2 =
     (if \<not> ToBoolean num1 \<or> \<not> ToBoolean num2 \<or>
         typeof num1 \<noteq> ''number'' \<or> typeof num2 \<noteq> ''number''
      then Inl (TypeError ''divide expects 2 numbers'')
      else if strict_equals_zero num2
      then Inl (Error ''cannot divide by zero'')
      else Inr (number_op js_div num1 num2))"

definition calculator_multiply :: "jsvalue \<Rightarrow> jsvalue \<Rightarrow> error + jsvalue" where
  "calculator_multiply num1 num2 =
     (if \<not> ToBoolean num1 \<or> \<not> ToBoolean num2 \<or>
         typeof num1 \<noteq> ''number'' \<or> typeof num2 \<noteq> ''number''
      then Inl (TypeError ''multiply expects 2 numbers'')
      else Inr (number_op js_mul num1 num2))"

section \<open>caesarCipher\<close>

text \<open>
  The shift factor has passed \<^verbatim>\<open>Number.isInteger\<close> when it reaches \<^verbatim>\<open>shiftCharacter\<close>, so
  it is modelled by the integer it denotes. The remainder operator \<^verbatim>\<open>%\<close> truncates towards
  zero (its result takes the sign of the dividend) and is exact on Numbers; the sums and
  differences below stay under 16 bits, where Number arithmetic is exact as well.
\<close>

definition js_rem :: "int \<Rightarrow> int \<Rightarrow> int" where
  "js_rem n m = sgn n * (\<bar>n\<bar> mod \<bar>m\<bar>)"

definition mod_js :: "int \<Rightarrow> int \<Rightarrow> int" where
  "mod_js n m = js_rem (js_rem n m + m) m"

text \<open>
  Comparison of strings with \<^verbatim>\<open><\<close> is lexicographic on code units; \<^verbatim>\<open>a >= b\<close> is the
  negation of \<^verbatim>\<open>a < b\<close>, and \<^verbatim>\<open>a <= b\<close> the negation of \<^verbatim>\<open>b < a\<close>.
\<close>

fun str_lt :: "jsstring \<Rightarrow> jsstring \<Rightarrow> bool" where
  "str_lt [] [] = False"
| "str_lt [] (y # ys) = True"
| "str_lt (x # xs) [] = False"
| "str_lt (x # xs) (y # ys) = (if x < y then True else if y < x then False else str_lt xs ys)"

definition str_ge :: "jsstring \<Rightarrow> jsstring \<Rightarrow> bool" where
  "str_ge a b = (\<not> str_lt a b)"

definition str_le :: "jsstring \<Rightarrow> jsstring \<Rightarrow> bool" where
  "str_le a b = (\<not> str_lt b a)"

text \<open>
  \<^verbatim>\<open>s.charCodeAt(0)\<close> is the first code unit. On the empty string it is NaN; the model
  returns 0 there, a value no caller uses, since the empty string fails both range tests
  of \<^verbatim>\<open>shiftCharacter\<close>. \<^verbatim>\<open>String.fromCharCode\<close> reduces its argument modulo \<open>2 ^ 16\<close>.
\<close>

fun charCodeAt0 :: "jsstring \<Rightarrow> int" where
  "charCodeAt0 [] = 0"
| "charCodeAt0 (c # _) = uint c"

definition fromCharCode :: "int \<Rightarrow> jsstring" where
  "fromCharCode n = [word_of_int n]"

definition shiftCharacter :: "jsstring \<Rightarrow> int \<Rightarrow> jsstring" where
  "shiftCharacter char shiftFactor =
     (let A_CODE = charCodeAt0 (lit ''A'');
          a_CODE = charCodeAt0 (lit ''a'');
          ALPHABET_SIZE = 26;
          shiftFactor = mod_js shiftFactor ALPHABET_SIZE;
          charCode = charCodeAt0 char
      in if str_ge char (lit ''A'') \<and> str_le char (lit ''Z'')
         then fromCharCode (js_rem (charCode - A_CODE + shiftFactor) ALPHABET_SIZE + A_CODE)
         else if str_ge char (lit ''a'') \<and> str_le char (lit ''z'')
         then fromCharCode (js_rem (charCode - a_CODE + shiftFactor) ALPHABET_SIZE + a_CODE)
         else char)"

text \<open>
  \<^verbatim>\<open>for (const char of string)\<close> walks the string by code points: a leading surrogate
  followed by a trailing surrogate is one step of two code units, every other code unit
  is a step of its own.
\<close>

definition is_leading_surrogate :: "code_unit \<Rightarrow> bool" where
  "is_leading_surrogate c = (0xD800 \<le> c \<and> c \<le> 0xDBFF)"

definition is_trailing_surrogate :: "code_unit \<Rightarrow> bool" where
  "is_trailing_surrogate c = (0xDC00 \<le> c \<and> c \<le> 0xDFFF)"

fun string_iterator :: "jsstring \<Rightarrow> jsstring list" where
  "string_iterator [] = []"
| "string_iterator [c] = [[c]]"
| "string_iterator (c # d # rest) =
     (if is_leading_surrogate c \<and> is_trailing_surrogate d
      then [c, d] # string_iterator rest
      else [c] # string_iterator (d # rest))"

fun caesar_loop :: "jsstring list \<Rightarrow> int \<Rightarrow> jsstring \<Rightarrow> jsstring" where
  "caesar_loop [] shiftFactor shifted = shifted"
| "caesar_loop (char # chars) shiftFactor shifted =
     caesar_loop chars shiftFactor (shifted @ shiftCharacter char shiftFactor)"

definition caesarCipher :: "jsvalue \<Rightarrow> jsvalue \<Rightarrow> error + jsvalue" where
  "caesarCipher string shiftFactor =
     (case string of
        JStr s \<Rightarrow>
          (if \<not> isInteger shiftFactor
           then Inl (TypeError ''caeserCipher expects an integer 2nd argument (shift factor)'')
           else (case shiftFactor of
                   JNum d \<Rightarrow> Inr (JStr (caesar_loop (string_iterator s) (integer_of d) []))
                 | _ \<Rightarrow> Inl (TypeError ''caeserCipher expects an integer 2nd argument (shift factor)'')))
      | _ \<Rightarrow> Inl (TypeError ''caesarCipher expects a string 1st argument (word to encrypt)''))"

section \<open>analyzeArray\<close>









section \<open>Notions of the specification\<close>

text \<open>
  The specification's reading of the cipher on one code unit: a letter \<^verbatim>\<open>A-Z\<close> or
  \<^verbatim>\<open>a-z\<close> moves forward by the shift inside the 26 letters of its own case, wrapping
  around; any other code unit stays as it is. The modulo is the mathematical one, with a
  result from 0 to 25.
\<close>

definition shift_letter :: "int \<Rightarrow> code_unit \<Rightarrow> code_unit" where
  "shift_letter k c =
     (if 0x41 \<le> c \<and> c \<le> 0x5A then word_of_int (0x41 + (uint c - 0x41 + k) mod 26)
      else if 0x61 \<le> c \<and> c \<le> 0x7A then word_of_int (0x61 + (uint c - 0x61 + k) mod 26)
      else c)"







section \<open>Auxiliary facts\<close>

subsection \<open>The loop of reverseString\<close>

declare reverse_loop.simps [simp del]

lemma reverse_loop_take:
  "- 1 \<le> i \<Longrightarrow> i < int (length s) \<Longrightarrow>
   reverse_loop s i acc = acc @ rev (take (nat (i + 1)) s)"
proof (induction s i acc rule: reverse_loop.induct)
  case (1 string i reversed)
  show ?case
  proof (cases "0 \<le> i")
    case True
    then have n: "nat (i + 1) = Suc (nat i)" and lt: "nat i < length string"
      using "1.prems" by auto
    have "reverse_loop string i reversed =
          reverse_loop string (i - 1) (reversed @ index_string string i)"
      using True by (subst reverse_loop.simps) simp
    also have "\<dots> = (reversed @ index_string string i) @ rev (take (nat (i - 1 + 1)) string)"
      using True "1.prems" by (intro "1.IH") auto
    also have "\<dots> = reversed @ rev (take (nat (i + 1)) string)"
      using True lt n "1.prems" by (simp add: index_string_def take_Suc_conv_app_nth)
    finally show ?thesis .
  next
    case False
    then have "i = - 1" using "1.prems" by simp
    then show ?thesis by (subst reverse_loop.simps) simp
  qed
qed

lemma reverseString_rev: "reverseString (JStr s) = Inr (JStr (rev s))"
  using reverse_loop_take [of "int (length s) - 1" s "[]"]
  by (simp add: reverseString_def)


subsection \<open>Shifting one character\<close>

lemma lit_A: "lit ''A'' = [0x41]" "lit ''Z'' = [0x5A]" "lit ''a'' = [0x61]" "lit ''z'' = [0x7A]"
  by (simp_all add: lit_def)

lemma js_rem_nonneg: "0 \<le> n \<Longrightarrow> 0 < m \<Longrightarrow> js_rem n m = n mod m"
  by (cases "n = 0") (simp_all add: js_rem_def)

lemma js_rem_range: "- 26 < js_rem k 26 \<and> js_rem k 26 < 26"
proof -
  have "0 \<le> \<bar>k\<bar> mod 26" "\<bar>k\<bar> mod 26 < 26" by simp_all
  then show ?thesis
    by (cases "k < 0"; cases "k = 0") (simp_all add: js_rem_def)
qed

lemma js_rem_cong: "(js_rem k 26 + 26) mod 26 = k mod 26"
proof (cases "k < 0")
  case True
  then have "js_rem k 26 = - ((- k) mod 26)" by (simp add: js_rem_def)
  then have "(js_rem k 26 + 26) mod 26 = (- ((- k) mod 26)) mod 26" by simp
  also have "\<dots> = (- (- k)) mod 26" by (rule mod_minus_eq)
  finally show ?thesis by simp
next
  case False
  then have "js_rem k 26 = k mod 26" by (simp add: js_rem_nonneg)
  then show ?thesis by simp
qed

lemma mod_js_26: "mod_js k 26 = k mod 26"
proof -
  have r: "0 \<le> js_rem k 26 + 26" using js_rem_range [of k] by simp
  have "js_rem (js_rem k 26 + 26) 26 = (js_rem k 26 + 26) mod 26"
    using r by (rule js_rem_nonneg) simp
  then have "mod_js k 26 = (js_rem k 26 + 26) mod 26"
    by (simp only: mod_js_def)
  also have "\<dots> = k mod 26" by (rule js_rem_cong)
  finally show ?thesis .
qed

lemma str_cmp_single:
  "str_ge [c] [a] = (a \<le> c)" "str_le [c] [a] = (c \<le> a)"
  by (auto simp: str_ge_def str_le_def)

lemma charCode_lit: "charCodeAt0 (lit ''A'') = 65" "charCodeAt0 (lit ''a'') = 97"
  by (simp_all add: lit_A)

lemma shift_arith:
  assumes "b \<le> x"
  shows "js_rem (x - b + mod_js k 26) 26 + b = b + (x - b + k) mod 26"
proof -
  have "0 \<le> x - b + k mod 26" using assms by simp
  then have "js_rem (x - b + k mod 26) 26 = (x - b + k mod 26) mod 26"
    by (simp add: js_rem_nonneg)
  also have "\<dots> = (x - b + k) mod 26" by (simp add: mod_add_right_eq)
  finally show ?thesis by (simp add: mod_js_26)
qed

lemma shiftCharacter_single: "shiftCharacter [c] k = [shift_letter k c]"
proof -
  consider (upper) "0x41 \<le> c \<and> c \<le> 0x5A"
    | (lower) "0x61 \<le> c \<and> c \<le> 0x7A"
    | (other) "\<not> (0x41 \<le> c \<and> c \<le> 0x5A)" "\<not> (0x61 \<le> c \<and> c \<le> 0x7A)"
    by blast
  then show ?thesis
  proof cases
    case upper
    then have "65 \<le> uint c" by (simp add: word_le_def)
    then have "js_rem (uint c - 65 + mod_js k 26) 26 + 65 = 65 + (uint c - 65 + k) mod 26"
      by (rule shift_arith)
    with upper show ?thesis
      by (simp add: shiftCharacter_def shift_letter_def Let_def charCode_lit lit_A
          str_cmp_single fromCharCode_def)
  next
    case lower
    then have u: "97 \<le> uint c" by (simp add: word_le_def)
    then have no: "(0x41 \<le> c \<and> c \<le> 0x5A) = False" by (simp add: word_le_def)
    have "js_rem (uint c - 97 + mod_js k 26) 26 + 97 = 97 + (uint c - 97 + k) mod 26"
      using u by (rule shift_arith)
    with lower show ?thesis
      by (simp add: shiftCharacter_def shift_letter_def Let_def charCode_lit lit_A
          str_cmp_single fromCharCode_def no)
  next
    case other
    then have no: "(0x41 \<le> c \<and> c \<le> 0x5A) = False" "(0x61 \<le> c \<and> c \<le> 0x7A) = False"
      by simp_all
    show ?thesis
      by (simp add: shiftCharacter_def shift_letter_def Let_def charCode_lit lit_A
          str_cmp_single no)
  qed
qed

lemma shiftCharacter_pair:
  assumes "is_leading_surrogate c"
  shows "shiftCharacter [c, d] k = [c, d]"
proof -
  have "0xD800 \<le> uint c" using assms by (simp add: is_leading_surrogate_def word_le_def)
  then have "0x5A < c" "0x7A < c"
    by (simp_all add: word_less_def)
  then have "\<not> str_le [c, d] [0x5A]" "\<not> str_le [c, d] [0x7A]"
    by (simp_all add: str_le_def)
  then show ?thesis
    by (simp add: shiftCharacter_def Let_def lit_A)
qed

lemma shift_letter_surrogate:
  "is_leading_surrogate c \<Longrightarrow> shift_letter k c = c"
  "is_trailing_surrogate c \<Longrightarrow> shift_letter k c = c"
  by (auto simp: shift_letter_def is_leading_surrogate_def is_trailing_surrogate_def word_le_def)


lemma caesar_loop_map:
  "caesar_loop (string_iterator s) k acc = acc @ map (shift_letter k) s"
proof (induction s arbitrary: acc rule: string_iterator.induct)
  case 1
  show ?case by simp
next
  case (2 c)
  show ?case by (simp add: shiftCharacter_single)
next
  case (3 c d rest)
  show ?case
  proof (cases "is_leading_surrogate c \<and> is_trailing_surrogate d")
    case True
    then have si: "string_iterator (c # d # rest) = [c, d] # string_iterator rest"
      by simp
    have fx: "shift_letter k c = c" "shift_letter k d = d"
      using True by (simp_all add: shift_letter_surrogate)
    have "caesar_loop (string_iterator rest) k (acc @ [c, d]) =
          (acc @ [c, d]) @ map (shift_letter k) rest"
      using True by (rule "3.IH"(1))
    then show ?thesis
      unfolding si using True by (simp add: shiftCharacter_pair fx)
  next
    case False
    then have si: "string_iterator (c # d # rest) = [c] # string_iterator (d # rest)"
      by auto
    have "caesar_loop (string_iterator (d # rest)) k (acc @ [shift_letter k c]) =
          (acc @ [shift_letter k c]) @ map (shift_letter k) (d # rest)"
      using False by (rule "3.IH"(2))
    then show ?thesis
      unfolding si by (simp add: shiftCharacter_single)
  qed
qed

lemma uint_small: "0 \<le> n \<Longrightarrow> n < 65536 \<Longrightarrow> uint (word_of_int n :: code_unit) = n"
  by (simp add: uint_word_of_int take_bit_eq_mod)

lemma shift_letter_upper:
  assumes "0x41 \<le> c \<and> c \<le> 0x5A"
  shows "uint (shift_letter k c) = 65 + (uint c - 65 + k) mod 26"
    and "0x41 \<le> shift_letter k c \<and> shift_letter k c \<le> 0x5A"
proof -
  let ?r = "(uint c - 65 + k) mod 26"
  have r: "0 \<le> ?r" "?r < 26" by simp_all
  have eq: "shift_letter k c = word_of_int (65 + ?r)"
    using assms by (simp add: shift_letter_def)
  show u: "uint (shift_letter k c) = 65 + ?r"
    unfolding eq using r by (intro uint_small) linarith+
  show "0x41 \<le> shift_letter k c \<and> shift_letter k c \<le> 0x5A"
    using r by (simp add: word_le_def u)
qed

lemma shift_letter_lower:
  assumes "0x61 \<le> c \<and> c \<le> 0x7A"
  shows "uint (shift_letter k c) = 97 + (uint c - 97 + k) mod 26"
    and "0x61 \<le> shift_letter k c \<and> shift_letter k c \<le> 0x7A"
    and "\<not> (0x41 \<le> shift_letter k c \<and> shift_letter k c \<le> 0x5A)"
proof -
  let ?r = "(uint c - 97 + k) mod 26"
  have r: "0 \<le> ?r" "?r < 26" by simp_all
  have "97 \<le> uint c" using assms by (simp add: word_le_def)
  then have no: "(0x41 \<le> c \<and> c \<le> 0x5A) = False" by (simp add: word_le_def)
  have eq: "shift_letter k c = word_of_int (97 + ?r)"
    using assms by (simp add: shift_letter_def no)
  show u: "uint (shift_letter k c) = 97 + ?r"
    unfolding eq using r by (intro uint_small) linarith+
  show "0x61 \<le> shift_letter k c \<and> shift_letter k c \<le> 0x7A"
    using r by (simp add: word_le_def u)
  show "\<not> (0x41 \<le> shift_letter k c \<and> shift_letter k c \<le> 0x5A)"
    using r by (simp add: word_le_def u)
qed

lemma shift_letter_other:
  "\<not> (0x41 \<le> c \<and> c \<le> 0x5A) \<Longrightarrow> \<not> (0x61 \<le> c \<and> c \<le> 0x7A) \<Longrightarrow> shift_letter k c = c"
  by (auto simp: shift_letter_def)

lemma back_arith:
  assumes "b \<le> x" "x < b + 26"
  shows "b + ((b + (x - b + k) mod 26) - b + - k) mod 26 = (x :: int)"
proof -
  have "((x - b + k) mod 26 + - k) mod 26 = (x - b + k + - k) mod 26"
    by (rule mod_add_left_eq)
  also have "\<dots> = x - b" using assms by simp
  finally show ?thesis by simp
qed

lemma shift_letter_inverse: "shift_letter (- k) (shift_letter k c) = c"
proof -
  consider (upper) "0x41 \<le> c \<and> c \<le> 0x5A"
    | (lower) "0x61 \<le> c \<and> c \<le> 0x7A"
    | (other) "\<not> (0x41 \<le> c \<and> c \<le> 0x5A)" "\<not> (0x61 \<le> c \<and> c \<le> 0x7A)"
    by blast
  then show ?thesis
  proof cases
    case upper
    note s = shift_letter_upper [OF upper, of k]
    have b: "65 \<le> uint c" "uint c < 65 + 26" using upper by (simp_all add: word_le_def)
    have "uint (shift_letter (- k) (shift_letter k c)) =
          65 + (uint (shift_letter k c) - 65 + - k) mod 26"
      by (rule shift_letter_upper(1) [OF s(2)])
    also have "\<dots> = uint c"
      unfolding s(1) using b by (rule back_arith)
    finally show ?thesis by (simp add: word_uint_eq_iff)
  next
    case lower
    note s = shift_letter_lower [OF lower, of k]
    have b: "97 \<le> uint c" "uint c < 97 + 26" using lower by (simp_all add: word_le_def)
    have "uint (shift_letter (- k) (shift_letter k c)) =
          97 + (uint (shift_letter k c) - 97 + - k) mod 26"
      by (rule shift_letter_lower(1) [OF s(2)])
    also have "\<dots> = uint c"
      unfolding s(1) using b by (rule back_arith)
    finally show ?thesis by (simp add: word_uint_eq_iff)
  next
    case other
    then show ?thesis by (simp add: shift_letter_other)
  qed
qed

lemma shift_letter_mod: "shift_letter k c = shift_letter (k mod 26) c"
  by (simp add: shift_letter_def mod_add_right_eq)

lemma shift_letter_zero: "shift_letter 0 c = c"
proof -
  consider (upper) "0x41 \<le> c \<and> c \<le> 0x5A"
    | (lower) "0x61 \<le> c \<and> c \<le> 0x7A"
    | (other) "\<not> (0x41 \<le> c \<and> c \<le> 0x5A)" "\<not> (0x61 \<le> c \<and> c \<le> 0x7A)"
    by blast
  then show ?thesis
  proof cases
    case upper
    have b: "65 \<le> uint c" "uint c < 65 + 26" using upper by (simp_all add: word_le_def)
    have "uint (shift_letter 0 c) = 65 + (uint c - 65 + 0) mod 26"
      by (rule shift_letter_upper(1) [OF upper])
    also have "\<dots> = uint c" using b by simp
    finally show ?thesis by (simp add: word_uint_eq_iff)
  next
    case lower
    have b: "97 \<le> uint c" "uint c < 97 + 26" using lower by (simp_all add: word_le_def)
    have "uint (shift_letter 0 c) = 97 + (uint c - 97 + 0) mod 26"
      by (rule shift_letter_lower(1) [OF lower])
    also have "\<dots> = uint c" using b by simp
    finally show ?thesis by (simp add: word_uint_eq_iff)
  next
    case other
    then show ?thesis by (simp add: shift_letter_other)
  qed
qed

subsection \<open>Negating a Number\<close>

lemma uint_flip:
  "uint (d + 0x8000000000000000 :: double) =
     (if uint d < 2 ^ 63 then uint d + 2 ^ 63 else uint d - 2 ^ 63)"
proof -
  have b: "0 \<le> uint d" "uint d < 2 ^ 64" using uint_lt2p [of d] by simp_all
  have "uint (d + 0x8000000000000000) = (uint d + 2 ^ 63) mod 2 ^ 64"
    by (simp add: uint_word_ariths)
  also have "\<dots> = (if uint d < 2 ^ 63 then uint d + 2 ^ 63 else uint d - 2 ^ 63)"
  proof (cases "uint d < 2 ^ 63")
    case True
    then show ?thesis using b by simp
  next
    case False
    have "(uint d + 2 ^ 63) mod 2 ^ 64 = (uint d - 2 ^ 63) mod 2 ^ 64"
      using mod_add_self2 [of "uint d - 2 ^ 63" "2 ^ 64"] by (simp add: algebra_simps)
    also have "\<dots> = uint d - 2 ^ 63" using False b by simp
    finally show ?thesis using False by simp
  qed
  finally show ?thesis .
qed

lemma fraction_flip: "fraction_of (d + 0x8000000000000000) = fraction_of d"
proof -
  have e: "(2::int) ^ 63 = 2048 * 2 ^ 52" by simp
  have "(uint d + 2 ^ 63) mod 2 ^ 52 = uint d mod 2 ^ 52"
    unfolding e by (rule mod_mult_self1)
  moreover have "(uint d - 2 ^ 63) mod 2 ^ 52 = uint d mod 2 ^ 52"
    using mod_mult_self1 [of "uint d - 2 ^ 63" 2048 "2 ^ 52"] unfolding e by simp
  ultimately show ?thesis by (simp add: fraction_of_def uint_flip)
qed

lemma div_shift_up: "m \<noteq> 0 \<Longrightarrow> ((u::int) + 2048 * m) div m mod 2048 = u div m mod 2048"
  by simp

lemma div_shift_down: "m \<noteq> 0 \<Longrightarrow> ((u::int) - 2048 * m) div m mod 2048 = u div m mod 2048"
proof -
  assume m: "m \<noteq> 0"
  have "(u - 2048 * m) div m mod 2048 = ((u - 2048 * m) + 2048 * m) div m mod 2048"
    using m by (rule div_shift_up [symmetric])
  then show ?thesis by simp
qed

lemma exponent_flip: "exponent_of (d + 0x8000000000000000) = exponent_of d"
proof -
  have e: "(2::int) ^ 63 = 2048 * 2 ^ 52" by simp
  have nz: "(2::int) ^ 52 \<noteq> 0" by simp
  show ?thesis
  proof (cases "uint d < 2 ^ 63")
    case True
    then have "uint (d + 0x8000000000000000) = uint d + 2048 * 2 ^ 52"
      unfolding uint_flip e by (simp only: if_True)
    then show ?thesis
      unfolding exponent_of_def using div_shift_up [OF nz, of "uint d"] by (simp only:)
  next
    case False
    then have "uint (d + 0x8000000000000000) = uint d - 2048 * 2 ^ 52"
      unfolding uint_flip e by (simp only: if_False)
    then show ?thesis
      unfolding exponent_of_def using div_shift_down [OF nz, of "uint d"] by (simp only:)
  qed
qed

lemma sign_flip: "sign_of (d + 0x8000000000000000) = (\<not> sign_of d)"
  using uint_lt2p [of d] by (simp add: sign_of_def uint_flip)

lemma magnitude_flip: "magnitude (d + 0x8000000000000000) = magnitude d"
  by (simp add: magnitude_def exponent_flip fraction_flip)

lemma valof_flip: "valof (d + 0x8000000000000000) = - valof d"
  by (simp add: valof_def magnitude_flip sign_flip)

lemma js_neg_integer:
  assumes "isInteger (JNum d)"
  shows "isInteger (JNum (js_neg d))" and "integer_of (js_neg d) = - integer_of d"
proof -
  have nn: "\<not> is_nan d" "\<not> is_inf d" and i: "valof d = of_int \<lfloor>valof d\<rfloor>"
    using assms by simp_all
  have n: "js_neg d = d + 0x8000000000000000" using nn by (simp add: js_neg_def)
  have v: "valof (js_neg d) = of_int (- \<lfloor>valof d\<rfloor>)"
    unfolding n valof_flip using i by simp
  show "integer_of (js_neg d) = - integer_of d"
    unfolding integer_of_def v by simp
  have "\<not> is_nan (js_neg d)" "\<not> is_inf (js_neg d)"
    using nn unfolding n by (simp_all add: is_nan_def is_inf_def exponent_flip fraction_flip)
  moreover have "valof (js_neg d) = of_int \<lfloor>valof (js_neg d)\<rfloor>"
    unfolding v by simp
  ultimately show "isInteger (JNum (js_neg d))" by simp
qed

subsection \<open>The cipher as a map over code units\<close>

lemma caesarCipher_map:
  "isInteger (JNum k) \<Longrightarrow>
   caesarCipher (JStr s) (JNum k) = Inr (JStr (map (shift_letter (integer_of k)) s))"
  by (simp add: caesarCipher_def caesar_loop_map del: isInteger.simps)

lemma map_shift_inverse: "map (shift_letter (- n)) (map (shift_letter n) s) = s"
  by (induction s) (simp_all add: shift_letter_inverse)


subsection \<open>Small shift factors and the reference vectors\<close>

lemma small_ints:
  "list_all (\<lambda>r. isInteger (JNum (double_of_int r)) \<and> integer_of (double_of_int r) = r) [0..25]"
  by code_simp

lemma residue_number:
  "isInteger (JNum (double_of_int (k mod 26)))"
  "integer_of (double_of_int (k mod 26)) = k mod 26"
proof -
  have "k mod 26 \<in> set [0..25]" by simp
  then show "isInteger (JNum (double_of_int (k mod 26)))"
    "integer_of (double_of_int (k mod 26)) = k mod 26"
    using small_ints unfolding list_all_iff by blast+
qed

lemma map_shift_mod: "map (shift_letter n) s = map (shift_letter (n mod 26)) s"
  using shift_letter_mod [of n] by simp

lemma map_shift_zero:
  assumes "n mod 26 = 0"
  shows "map (shift_letter n) s = s"
proof -
  have "map (shift_letter n) s = map (shift_letter 0) s"
    using map_shift_mod [of n s] assms by simp
  also have "\<dots> = s" by (rule map_idI) (rule shift_letter_zero)
  finally show ?thesis .
qed

lemma mod_js_range: "0 \<le> mod_js n 26 \<and> mod_js n 26 < 26"
  by (simp add: mod_js_26)

lemma number_29: "isInteger (JNum (double_of_int 29))" "integer_of (double_of_int 29) = 29"
  by code_simp+

lemma number_minus_3: "isInteger (JNum (double_of_int (- 3)))" "integer_of (double_of_int (- 3)) = - 3"
  by code_simp+

lemma number_26: "isInteger (JNum (double_of_int 26))" "integer_of (double_of_int 26) = 26"
  by code_simp+

lemma number_3: "isInteger (JNum (double_of_int 3))" "integer_of (double_of_int 3) = 3"
  by code_simp+

lemma shift_A_3: "map (shift_letter 29) (lit ''A'') = lit ''D''"
  "map (shift_letter (- 3)) (lit ''A'') = lit ''X''"
  by code_simp+

lemma shift_hello: "map (shift_letter 3) (lit ''Hello, World!'') = lit ''Khoor, Zruog!''"
  by code_simp

subsection \<open>The steps of the string iterator\<close>

lemma iterator_concat: "concat (string_iterator s) = s"
  by (induction s rule: string_iterator.induct) simp_all

lemma iterator_chunks:
  "list_all (\<lambda>ch. (\<exists>c. ch = [c]) \<or> (\<exists>c d. ch = [c, d] \<and> is_leading_surrogate c))
     (string_iterator s)"
  by (induction s rule: string_iterator.induct) simp_all

lemma shiftCharacter_length:
  "list_all (\<lambda>ch. length (shiftCharacter ch n) = length ch) (string_iterator s)"
proof -
  have "length (shiftCharacter ch n) = length ch"
    if "(\<exists>c. ch = [c]) \<or> (\<exists>c d. ch = [c, d] \<and> is_leading_surrogate c)" for ch
    using that by (auto simp: shiftCharacter_single shiftCharacter_pair)
  then show ?thesis
    using iterator_chunks [of s] unfolding list_all_iff by blast
qed

subsection \<open>Upper-casing the first code unit\<close>

lemma capitalize_nonempty:
  "capitalize tbl (JStr (c # rest)) = Inr (JStr (toUpperCase_unit tbl c @ rest))"
  by (simp add: capitalize_def)

lemma upper_sharp_s: "toUpperCase_unit tbl 0xDF = [0x53, 0x53]"
  by (simp add: toUpperCase_unit_def)

lemma upper_latin1_single:
  assumes "c < 0x100" "c \<noteq> 0xDF"
  shows "\<exists>u. toUpperCase_unit tbl c = [u]"
  using assms by (simp add: toUpperCase_unit_def)

lemma upper_ascii_letter:
  "0x61 \<le> c \<and> c \<le> 0x7A \<Longrightarrow> toUpperCase_unit tbl c = [c - 0x20]"
  by (simp add: toUpperCase_unit_def)

subsection \<open>The guard of the calculator\<close>

lemma typeof_number: "typeof v = ''number'' \<longleftrightarrow> (\<exists>d. v = JNum d)"
  by (cases v) simp_all

lemma guard_iff:
  "(\<not> ToBoolean v \<or> \<not> ToBoolean w \<or> typeof v \<noteq> ''number'' \<or> typeof w \<noteq> ''number'') \<longleftrightarrow>
   \<not> (\<exists>a b. v = JNum a \<and> w = JNum b \<and> \<not> is_zero a \<and> \<not> is_nan a \<and> \<not> is_zero b \<and> \<not> is_nan b)"
proof (cases "\<exists>a b. v = JNum a \<and> w = JNum b")
  case True
  then show ?thesis by auto
next
  case False
  then have "typeof v \<noteq> ''number'' \<or> typeof w \<noteq> ''number''"
    by (simp add: typeof_number)
  with False show ?thesis by blast
qed

lemma zero_falsy: "is_zero pos_zero" "is_zero neg_zero" "\<not> is_nan pos_zero" "\<not> is_nan neg_zero"
  by code_simp+

lemma falsy_number: "is_zero d \<or> is_nan d \<Longrightarrow> \<not> ToBoolean (JNum d)"
  by auto

lemma calc_falsy:
  assumes "\<not> ToBoolean v \<or> \<not> ToBoolean w"
  shows "calculator_add v w = Inl (TypeError ''add expects 2 numbers'')"
    and "calculator_subtract v w = Inl (TypeError ''subtract expects 2 numbers'')"
    and "calculator_divide v w = Inl (TypeError ''divide expects 2 numbers'')"
    and "calculator_multiply v w = Inl (TypeError ''multiply expects 2 numbers'')"
  using assms
  by (auto simp: calculator_add_def calculator_subtract_def calculator_divide_def
      calculator_multiply_def)

lemma calc_result:
  assumes "\<exists>a b. v = JNum a \<and> w = JNum b \<and> \<not> is_zero a \<and> \<not> is_nan a \<and> \<not> is_zero b \<and> \<not> is_nan b"
  shows "calculator_add v w = Inr (number_op js_add v w)"
    and "calculator_subtract v w = Inr (number_op js_sub v w)"
    and "calculator_divide v w = Inr (number_op js_div v w)"
    and "calculator_multiply v w = Inr (number_op js_mul v w)"
  using assms
  by (auto simp: calculator_add_def calculator_subtract_def calculator_divide_def
      calculator_multiply_def)

lemma calc_error:
  assumes "\<not> (\<exists>a b. v = JNum a \<and> w = JNum b \<and> \<not> is_zero a \<and> \<not> is_nan a \<and> \<not> is_zero b \<and> \<not> is_nan b)"
  shows "calculator_add v w = Inl (TypeError ''add expects 2 numbers'')"
    and "calculator_subtract v w = Inl (TypeError ''subtract expects 2 numbers'')"
    and "calculator_divide v w = Inl (TypeError ''divide expects 2 numbers'')"
    and "calculator_multiply v w = Inl (TypeError ''multiply expects 2 numbers'')"
proof -
  have g: "\<not> ToBoolean v \<or> \<not> ToBoolean w \<or> typeof v \<noteq> ''number'' \<or> typeof w \<noteq> ''number''"
    using assms guard_iff [of v w] by blast
  show "calculator_add v w = Inl (TypeError ''add expects 2 numbers'')"
    by (simp only: calculator_add_def g if_True)
  show "calculator_subtract v w = Inl (TypeError ''subtract expects 2 numbers'')"
    by (simp only: calculator_subtract_def g if_True)
  show "calculator_divide v w = Inl (TypeError ''divide expects 2 numbers'')"
    by (simp only: calculator_divide_def g if_True)
  show "calculator_multiply v w = Inl (TypeError ''multiply expects 2 numbers'')"
    by (simp only: calculator_multiply_def g if_True)
qed

subsection \<open>Bit patterns and their values\<close>

lemma pow2_powi: "pow2 e = 2 powi e"
  by (simp add: pow2_def power_int_def inverse_eq_divide power_one_over)




















subsection \<open>The exponent of a rational and rounding to an integer\<close>


lemma pow2_strict_mono: "a < b \<Longrightarrow> pow2 a < pow2 b"
  by (simp add: pow2_powi power_int_strict_increasing)










subsection \<open>Bit patterns from exponent and mantissa\<close>




subsection \<open>Rounding is exact on representable values\<close>

























subsection \<open>Rounding is within half a unit in the last place\<close>








subsection \<open>The scans of Math.min and Math.max\<close>















subsection \<open>The branches of analyzeArray\<close>








subsection \<open>A sum beyond the largest finite Number\<close>





section \<open>The claims\<close>

text \<open>
  C1. Each of the four calculator operations throws its TypeError when either argument
  is the Number 0, although \<^verbatim>\<open>typeof 0\<close> is \<^verbatim>\<open>"number"\<close>: 0 is falsy. The other
  argument is arbitrary, so \<^verbatim>\<open>divide(0, x)\<close> throws for every \<open>x\<close> and never returns 0.
\<close>

theorem calculator_rejects_zero:
  "calculator_add (JNum pos_zero) v = Inl (TypeError ''add expects 2 numbers'') \<and>
   calculator_add v (JNum pos_zero) = Inl (TypeError ''add expects 2 numbers'') \<and>
   calculator_subtract (JNum pos_zero) v = Inl (TypeError ''subtract expects 2 numbers'') \<and>
   calculator_subtract v (JNum pos_zero) = Inl (TypeError ''subtract expects 2 numbers'') \<and>
   calculator_multiply (JNum pos_zero) v = Inl (TypeError ''multiply expects 2 numbers'') \<and>
   calculator_multiply v (JNum pos_zero) = Inl (TypeError ''multiply expects 2 numbers'') \<and>
   calculator_divide (JNum pos_zero) v = Inl (TypeError ''divide expects 2 numbers'') \<and>
   calculator_divide v (JNum pos_zero) = Inl (TypeError ''divide expects 2 numbers'') \<and>
   typeof (JNum pos_zero) = ''number'' \<and> \<not> ToBoolean (JNum pos_zero)"
proof -
  have f: "\<not> ToBoolean (JNum pos_zero)" using zero_falsy(1) by simp
  then have l: "\<not> ToBoolean (JNum pos_zero) \<or> \<not> ToBoolean v"
    and r: "\<not> ToBoolean v \<or> \<not> ToBoolean (JNum pos_zero)"
    by simp_all
  show ?thesis
    using calc_falsy [OF l] calc_falsy [OF r] f by simp
qed

theorem calculator_rejects_zero_witness:
  "calculator_divide (JNum pos_zero) (JNum (double_of_int 5)) =
     Inl (TypeError ''divide expects 2 numbers'') \<and>
   calculator_add (JNum (double_of_int 2)) (JNum pos_zero) =
     Inl (TypeError ''add expects 2 numbers'')"
  using calculator_rejects_zero [of "JNum (double_of_int 5)"]
    calculator_rejects_zero [of "JNum (double_of_int 2)"]
  by simp

text \<open>
  C2 (as amended). \<^verbatim>\<open>capitalize("")\<close> is \<^verbatim>\<open>""\<close>. For a non-empty string the result is
  the upper-cased form of the first code unit followed by the rest of the string
  unchanged. The upper-cased form can be longer than one code unit; whenever it is a
  single code unit \<open>u\<close>, the result is \<open>u\<close> followed by the rest. Among the code units
  below 0x100 this holds for all but the sharp s, and an ASCII letter \<^verbatim>\<open>a-z\<close> becomes the
  corresponding letter \<^verbatim>\<open>A-Z\<close>.
\<close>

theorem capitalize_upper_first:
  "capitalize tbl (JStr []) = Inr (JStr []) \<and>
   capitalize tbl (JStr (c # rest)) = Inr (JStr (toUpperCase_unit tbl c @ rest)) \<and>
   (toUpperCase_unit tbl c = [u] \<longrightarrow> capitalize tbl (JStr (c # rest)) = Inr (JStr (u # rest))) \<and>
   (c < 0x100 \<and> c \<noteq> 0xDF \<longrightarrow> (\<exists>u. toUpperCase_unit tbl c = [u])) \<and>
   (0x61 \<le> c \<and> c \<le> 0x7A \<longrightarrow> capitalize tbl (JStr (c # rest)) = Inr (JStr ((c - 0x20) # rest)))"
proof -
  have a: "capitalize tbl (JStr []) = Inr (JStr [])" by (simp add: capitalize_def)
  have b: "capitalize tbl (JStr (c # rest)) = Inr (JStr (u # rest))"
    if "toUpperCase_unit tbl c = [u]"
    using that by (simp add: capitalize_nonempty)
  have d: "capitalize tbl (JStr (c # rest)) = Inr (JStr ((c - 0x20) # rest))"
    if "0x61 \<le> c \<and> c \<le> 0x7A"
    using upper_ascii_letter [OF that, of tbl] by (simp add: capitalize_nonempty)
  show ?thesis
    using a b d capitalize_nonempty [of tbl c rest] upper_latin1_single [of c tbl] by blast
qed

theorem capitalize_upper_first_witness:
  "\<forall>tbl. capitalize tbl (JStr (lit ''an'')) = Inr (JStr (lit ''An'')) \<and>
         toUpperCase_unit tbl 0x61 = [0x41] \<and>
         (\<exists>u. toUpperCase_unit tbl 0xE9 = [u])"
proof
  fix tbl :: "code_unit \<Rightarrow> jsstring"
  have l: "lit ''an'' = [0x61, 0x6E]" "lit ''An'' = [0x41, 0x6E]" by (simp_all add: lit_def)
  have r: "(0x61 :: code_unit) \<le> 0x61 \<and> (0x61 :: code_unit) \<le> 0x7A" by simp
  have u: "toUpperCase_unit tbl 0x61 = [0x41]" by (simp add: toUpperCase_unit_def)
  have e: "(0xE9 :: code_unit) < 0x100 \<and> (0xE9 :: code_unit) \<noteq> 0xDF" by simp
  have "capitalize tbl (JStr (0x61 # [0x6E])) = Inr (JStr ((0x61 - 0x20) # [0x6E]))"
    using capitalize_upper_first [of tbl "0x61" "[0x6E]"] r by blast
  moreover have "capitalize tbl (JStr (0x61 # [0x6E])) = Inr (JStr (0x41 # [0x6E]))"
    using capitalize_upper_first [of tbl "0x61" "[0x6E]" "0x41"] u by blast
  moreover have "\<exists>u. toUpperCase_unit tbl 0xE9 = [u]"
    using capitalize_upper_first [of tbl "0xE9"] e by blast
  ultimately show "capitalize tbl (JStr (lit ''an'')) = Inr (JStr (lit ''An'')) \<and>
         toUpperCase_unit tbl 0x61 = [0x41] \<and>
         (\<exists>u. toUpperCase_unit tbl 0xE9 = [u])"
    unfolding l using u by simp
qed

text \<open>
  C2, the counterexample. The claim as first stated fails on a string that starts with
  the sharp s: its upper-cased form is \<^verbatim>\<open>SS\<close>, so \<^verbatim>\<open>capitalize\<close> returns a string
  one code unit longer, and what follows the first code unit of the result is not the
  rest of the argument.
\<close>

theorem capitalize_sharp_s_counterexample:
  "(\<forall>tbl. capitalize tbl (JStr [0xDF, 0x65, 0x74, 0x61]) =
           Inr (JStr [0x53, 0x53, 0x65, 0x74, 0x61])) \<and>
   drop 1 [0x53, 0x53, 0x65, 0x74, 0x61 :: code_unit] \<noteq> drop 1 [0xDF, 0x65, 0x74, 0x61]"
  by (simp add: capitalize_nonempty upper_sharp_s)

text \<open>
  C3. \<^verbatim>\<open>calculator.divide\<close> never throws the plain Error of its zero-divisor check: a
  second argument that is strictly equal to 0 is falsy, so the guard in front has already
  thrown the TypeError.
\<close>

theorem calculator_divide_zero_check_unreachable:
  "(\<forall>msg. calculator_divide v w \<noteq> Inl (Error msg)) \<and>
   (strict_equals_zero w \<longrightarrow> \<not> ToBoolean w) \<and>
   (strict_equals_zero w \<longrightarrow> calculator_divide v w = Inl (TypeError ''divide expects 2 numbers''))"
proof -
  have z: "\<not> ToBoolean w" if "strict_equals_zero w"
    using that by (cases w) simp_all
  have e: "calculator_divide v w = Inl (TypeError ''divide expects 2 numbers'')"
    if "strict_equals_zero w"
    using calc_falsy(3) [of v w] z [OF that] by simp
  have "calculator_divide v w \<noteq> Inl (Error msg)" for msg
  proof (cases "strict_equals_zero w")
    case True
    then show ?thesis using e by simp
  next
    case False
    then show ?thesis by (simp add: calculator_divide_def)
  qed
  then show ?thesis using z e by blast
qed

theorem calculator_divide_zero_check_unreachable_witness:
  "strict_equals_zero (JNum pos_zero) \<and> \<not> ToBoolean (JNum pos_zero) \<and>
   calculator_divide (JNum (double_of_int 1)) (JNum pos_zero) =
     Inl (TypeError ''divide expects 2 numbers'')"
proof -
  have s: "strict_equals_zero (JNum pos_zero)" using zero_falsy(1) by simp
  then show ?thesis
    using calculator_divide_zero_check_unreachable [of "JNum (double_of_int 1)" "JNum pos_zero"]
    by blast
qed

text \<open>
  C4. For every string \<open>s\<close> and every integral Number \<open>k\<close>, enciphering \<open>s\<close> with
  \<open>k\<close> succeeds, and enciphering the result with \<open>-k\<close> gives \<open>s\<close> back.
\<close>

theorem caesarCipher_round_trip:
  assumes "isInteger (JNum k)"
  shows "\<exists>t. caesarCipher (JStr s) (JNum k) = Inr (JStr t) \<and>
             caesarCipher (JStr t) (JNum (js_neg k)) = Inr (JStr s)"
proof -
  let ?t = "map (shift_letter (integer_of k)) s"
  have 1: "caesarCipher (JStr s) (JNum k) = Inr (JStr ?t)"
    using assms by (rule caesarCipher_map)
  have "caesarCipher (JStr ?t) (JNum (js_neg k)) =
        Inr (JStr (map (shift_letter (integer_of (js_neg k))) ?t))"
    using js_neg_integer(1) [OF assms] by (rule caesarCipher_map)
  also have "\<dots> = Inr (JStr s)"
    unfolding js_neg_integer(2) [OF assms] map_shift_inverse ..
  finally show ?thesis using 1 by blast
qed

theorem caesarCipher_round_trip_witness:
  "isInteger (JNum (double_of_int 3)) \<and>
   (\<exists>t. caesarCipher (JStr (lit ''Hello, World!'')) (JNum (double_of_int 3)) = Inr (JStr t) \<and>
        caesarCipher (JStr t) (JNum (js_neg (double_of_int 3))) =
          Inr (JStr (lit ''Hello, World!'')))"
proof -
  have h: "isInteger (JNum (double_of_int 3))" by code_simp
  show ?thesis
    using h caesarCipher_round_trip [OF h, of "lit ''Hello, World!''"] by simp
qed

text \<open>
  C5. On every string and every integral shift factor \<open>k\<close> the cipher returns the string
  in which each code unit is replaced by its shifted letter: a letter \<^verbatim>\<open>A-Z\<close> moves
  forward by \<open>k\<close> inside \<^verbatim>\<open>A-Z\<close>, wrapping around, a letter \<^verbatim>\<open>a-z\<close> likewise inside
  \<^verbatim>\<open>a-z\<close>, and every other code unit (digit, punctuation, blank, non-ASCII) is
  unchanged. The reference vector: \<^verbatim>\<open>caesarCipher("Hello, World!", 3)\<close> is
  \<^verbatim>\<open>"Khoor, Zruog!"\<close>.
\<close>

theorem caesarCipher_shifts_letters:
  "(isInteger (JNum k) \<longrightarrow>
      caesarCipher (JStr s) (JNum k) = Inr (JStr (map (shift_letter (integer_of k)) s))) \<and>
   (0x41 \<le> c \<and> c \<le> 0x5A \<longrightarrow>
      0x41 \<le> shift_letter n c \<and> shift_letter n c \<le> 0x5A \<and>
      uint (shift_letter n c) = 0x41 + (uint c - 0x41 + n) mod 26) \<and>
   (0x61 \<le> c \<and> c \<le> 0x7A \<longrightarrow>
      0x61 \<le> shift_letter n c \<and> shift_letter n c \<le> 0x7A \<and>
      uint (shift_letter n c) = 0x61 + (uint c - 0x61 + n) mod 26) \<and>
   (\<not> (0x41 \<le> c \<and> c \<le> 0x5A) \<and> \<not> (0x61 \<le> c \<and> c \<le> 0x7A) \<longrightarrow> shift_letter n c = c) \<and>
   caesarCipher (JStr (lit ''Hello, World!'')) (JNum (double_of_int 3)) =
     Inr (JStr (lit ''Khoor, Zruog!''))"
proof -
  have a: "caesarCipher (JStr s) (JNum k) = Inr (JStr (map (shift_letter (integer_of k)) s))"
    if "isInteger (JNum k)"
    using that by (rule caesarCipher_map)
  have b: "0x41 \<le> shift_letter n c \<and> shift_letter n c \<le> 0x5A \<and>
           uint (shift_letter n c) = 0x41 + (uint c - 0x41 + n) mod 26"
    if "0x41 \<le> c \<and> c \<le> 0x5A"
    using shift_letter_upper [OF that, of n] by simp
  have c: "0x61 \<le> shift_letter n c \<and> shift_letter n c \<le> 0x7A \<and>
           uint (shift_letter n c) = 0x61 + (uint c - 0x61 + n) mod 26"
    if "0x61 \<le> c \<and> c \<le> 0x7A"
    using shift_letter_lower(1,2) [OF that, of n] by simp
  have d: "shift_letter n c = c"
    if "\<not> (0x41 \<le> c \<and> c \<le> 0x5A) \<and> \<not> (0x61 \<le> c \<and> c \<le> 0x7A)"
    using that shift_letter_other [of c n] by blast
  have e: "caesarCipher (JStr (lit ''Hello, World!'')) (JNum (double_of_int 3)) =
           Inr (JStr (lit ''Khoor, Zruog!''))"
    by (simp only: caesarCipher_map [OF number_3(1)] number_3(2) shift_hello)
  show ?thesis using a b c d e by blast
qed

theorem caesarCipher_shifts_letters_witness:
  "caesarCipher (JStr (lit ''xyz XYZ 09'')) (JNum (double_of_int 3)) =
     Inr (JStr (lit ''abc ABC 09'')) \<and>
   uint (shift_letter 3 0x5A) = 0x41 + (uint (0x5A :: code_unit) - 0x41 + 3) mod 26 \<and>
   uint (shift_letter 3 0x7A) = 0x61 + (uint (0x7A :: code_unit) - 0x61 + 3) mod 26 \<and>
   shift_letter 3 0x20 = 0x20"
proof -
  have m: "map (shift_letter 3) (lit ''xyz XYZ 09'') = lit ''abc ABC 09''" by code_simp
  have r: "(0x41 :: code_unit) \<le> 0x5A \<and> (0x5A :: code_unit) \<le> 0x5A"
    "(0x61 :: code_unit) \<le> 0x7A \<and> (0x7A :: code_unit) \<le> 0x7A"
    "\<not> (0x41 \<le> (0x20 :: code_unit) \<and> (0x20 :: code_unit) \<le> 0x5A) \<and>
     \<not> (0x61 \<le> (0x20 :: code_unit) \<and> (0x20 :: code_unit) \<le> 0x7A)"
    by simp_all
  show ?thesis
    using caesarCipher_shifts_letters [of "double_of_int 3" "lit ''xyz XYZ 09''" "0x5A" 3]
      caesarCipher_shifts_letters [of "double_of_int 3" "lit ''xyz XYZ 09''" "0x7A" 3]
      caesarCipher_shifts_letters [of "double_of_int 3" "lit ''xyz XYZ 09''" "0x20" 3]
      number_3 m r
    by (simp only:) blast
qed

text \<open>
  C6. The cipher depends on the shift factor only through its residue modulo 26: for
  every integral \<open>k\<close> the result for \<open>k\<close> is the result for the Number \<open>k mod 26\<close>,
  and for any Number denoting that residue. The helper \<^verbatim>\<open>mod\<close> is the true modulo, with
  a result from 0 to 25 (\<open>-3 mod 26 = 23\<close>). A shift factor that is a multiple of 26
  returns the input, \<^verbatim>\<open>caesarCipher("A", 29)\<close> is \<^verbatim>\<open>"D"\<close> and
  \<^verbatim>\<open>caesarCipher("A", -3)\<close> is \<^verbatim>\<open>"X"\<close>.
\<close>

theorem caesarCipher_shift_mod_26:
  "(isInteger (JNum k) \<longrightarrow>
      caesarCipher (JStr s) (JNum k) =
      caesarCipher (JStr s) (JNum (double_of_int (integer_of k mod 26)))) \<and>
   (isInteger (JNum k) \<and> isInteger (JNum k') \<and> integer_of k' = integer_of k mod 26 \<longrightarrow>
      caesarCipher (JStr s) (JNum k) = caesarCipher (JStr s) (JNum k')) \<and>
   (isInteger (JNum k) \<and> integer_of k mod 26 = 0 \<longrightarrow>
      caesarCipher (JStr s) (JNum k) = Inr (JStr s)) \<and>
   mod_js n 26 = n mod 26 \<and> 0 \<le> mod_js n 26 \<and> mod_js n 26 < 26 \<and> mod_js (- 3) 26 = 23 \<and>
   caesarCipher (JStr (lit ''A'')) (JNum (double_of_int 29)) = Inr (JStr (lit ''D'')) \<and>
   caesarCipher (JStr (lit ''A'')) (JNum (double_of_int (- 3))) = Inr (JStr (lit ''X''))"
proof -
  have a: "caesarCipher (JStr s) (JNum k) =
           caesarCipher (JStr s) (JNum (double_of_int (integer_of k mod 26)))"
    if "isInteger (JNum k)"
    using that residue_number [of "integer_of k"] map_shift_mod [of "integer_of k" s]
    by (simp only: caesarCipher_map)
  have b: "caesarCipher (JStr s) (JNum k) = caesarCipher (JStr s) (JNum k')"
    if "isInteger (JNum k) \<and> isInteger (JNum k') \<and> integer_of k' = integer_of k mod 26"
    using that map_shift_mod [of "integer_of k" s] by (simp only: caesarCipher_map)
  have c: "caesarCipher (JStr s) (JNum k) = Inr (JStr s)"
    if "isInteger (JNum k) \<and> integer_of k mod 26 = 0"
    using that map_shift_zero [of "integer_of k" s] by (simp only: caesarCipher_map)
  have d: "mod_js (- 3) 26 = 23" by (simp add: mod_js_26)
  have e: "caesarCipher (JStr (lit ''A'')) (JNum (double_of_int 29)) = Inr (JStr (lit ''D''))"
    by (simp only: caesarCipher_map [OF number_29(1)] number_29(2) shift_A_3)
  have f: "caesarCipher (JStr (lit ''A'')) (JNum (double_of_int (- 3))) = Inr (JStr (lit ''X''))"
    by (simp only: caesarCipher_map [OF number_minus_3(1)] number_minus_3(2) shift_A_3)
  show ?thesis
    using a b c d e f mod_js_26 [of n] mod_js_range [of n] by blast
qed

theorem caesarCipher_shift_mod_26_witness:
  "caesarCipher (JStr (lit ''A'')) (JNum (double_of_int 29)) =
     caesarCipher (JStr (lit ''A'')) (JNum (double_of_int 3)) \<and>
   caesarCipher (JStr (lit ''A'')) (JNum (double_of_int 29)) =
     caesarCipher (JStr (lit ''A'')) (JNum (double_of_int (integer_of (double_of_int 29) mod 26))) \<and>
   caesarCipher (JStr (lit ''A'')) (JNum (double_of_int 26)) = Inr (JStr (lit ''A''))"
proof -
  have m: "integer_of (double_of_int 3) = integer_of (double_of_int 29) mod 26"
    by (simp add: number_29 number_3)
  have z: "integer_of (double_of_int 26) mod 26 = 0" by (simp add: number_26)
  have "caesarCipher (JStr (lit ''A'')) (JNum (double_of_int 29)) =
        caesarCipher (JStr (lit ''A'')) (JNum (double_of_int 3))"
    using caesarCipher_shift_mod_26 [of "double_of_int 29" "lit ''A''" "double_of_int 3" 0]
      number_29(1) number_3(1) m
    by blast
  moreover have "caesarCipher (JStr (lit ''A'')) (JNum (double_of_int 29)) =
     caesarCipher (JStr (lit ''A'')) (JNum (double_of_int (integer_of (double_of_int 29) mod 26)))"
    using caesarCipher_shift_mod_26 [of "double_of_int 29" "lit ''A''" "double_of_int 3" 0]
      number_29(1)
    by blast
  moreover have "caesarCipher (JStr (lit ''A'')) (JNum (double_of_int 26)) = Inr (JStr (lit ''A''))"
    using caesarCipher_shift_mod_26 [of "double_of_int 26" "lit ''A''" "double_of_int 3" 0]
      number_26(1) z
    by blast
  ultimately show ?thesis by blast
qed

text \<open>
  C7. \<^verbatim>\<open>reverseString\<close> returns the code units of its argument in reverse order;
  applying it to its own result gives the argument back; the empty string and every
  string of one code unit are fixed points.
\<close>

theorem reverseString_involution:
  "reverseString (JStr s) = Inr (JStr (rev s)) \<and>
   (case reverseString (JStr s) of Inl e \<Rightarrow> Inl e | Inr v \<Rightarrow> reverseString v) = Inr (JStr s) \<and>
   reverseString (JStr []) = Inr (JStr []) \<and>
   reverseString (JStr [c]) = Inr (JStr [c])"
  by (simp add: reverseString_rev)

theorem reverseString_involution_witness:
  "reverseString (JStr (lit ''apple'')) = Inr (JStr (lit ''elppa'')) \<and>
   reverseString (JStr (lit ''elppa'')) = Inr (JStr (lit ''apple''))"
  using reverseString_involution [of "lit ''apple''"] reverseString_involution [of "lit ''elppa''"]
  by (simp add: lit_def)




text \<open>
  C9. For every string \<open>s\<close> and every integral shift factor the cipher returns a string
  with as many code units as \<open>s\<close>: the steps of the iteration make up \<open>s\<close>, and each
  step, a single code unit or a surrogate pair, is replaced by a string of its own length.
\<close>

theorem caesarCipher_preserves_length:
  assumes "isInteger (JNum k)"
  shows "(\<exists>t. caesarCipher (JStr s) (JNum k) = Inr (JStr t) \<and> length t = length s) \<and>
         concat (string_iterator s) = s \<and>
         list_all (\<lambda>ch. length (shiftCharacter ch (integer_of k)) = length ch) (string_iterator s)"
  using caesarCipher_map [OF assms, of s] iterator_concat [of s]
    shiftCharacter_length [of "integer_of k" s]
  by simp

theorem caesarCipher_preserves_length_witness:
  "isInteger (JNum (double_of_int 3)) \<and>
   (\<exists>t. caesarCipher (JStr [0x48, 0x69, 0x20, 0xD83D, 0xDE00, 0xE9]) (JNum (double_of_int 3)) =
          Inr (JStr t) \<and> length t = 6)"
proof -
  have h: "isInteger (JNum (double_of_int 3))" by (rule number_3(1))
  have l: "length [0x48, 0x69, 0x20, 0xD83D, 0xDE00, 0xE9 :: code_unit] = 6" by simp
  have "\<exists>t. caesarCipher (JStr [0x48, 0x69, 0x20, 0xD83D, 0xDE00, 0xE9]) (JNum (double_of_int 3)) =
          Inr (JStr t) \<and> length t = length [0x48, 0x69, 0x20, 0xD83D, 0xDE00, 0xE9 :: code_unit]"
    using caesarCipher_preserves_length [OF h, of "[0x48, 0x69, 0x20, 0xD83D, 0xDE00, 0xE9]"]
    by (rule conjunct1)
  then have "\<exists>t. caesarCipher (JStr [0x48, 0x69, 0x20, 0xD83D, 0xDE00, 0xE9])
        (JNum (double_of_int 3)) = Inr (JStr t) \<and> length t = 6"
    unfolding l .
  with h show ?thesis by blast
qed

text \<open>
  C10. Each of the four calculator operations throws its TypeError when either argument
  is NaN or the negative zero. Hence an operation that returns has been given two Numbers
  that are neither NaN nor a zero, and on such Numbers it returns the result of its
  operator.
\<close>

theorem calculator_rejects_nan_and_negative_zero:
  "(is_nan d \<or> d = neg_zero \<longrightarrow>
      calculator_add (JNum d) v = Inl (TypeError ''add expects 2 numbers'') \<and>
      calculator_add v (JNum d) = Inl (TypeError ''add expects 2 numbers'') \<and>
      calculator_subtract (JNum d) v = Inl (TypeError ''subtract expects 2 numbers'') \<and>
      calculator_subtract v (JNum d) = Inl (TypeError ''subtract expects 2 numbers'') \<and>
      calculator_multiply (JNum d) v = Inl (TypeError ''multiply expects 2 numbers'') \<and>
      calculator_multiply v (JNum d) = Inl (TypeError ''multiply expects 2 numbers'') \<and>
      calculator_divide (JNum d) v = Inl (TypeError ''divide expects 2 numbers'') \<and>
      calculator_divide v (JNum d) = Inl (TypeError ''divide expects 2 numbers'')) \<and>
   (calculator_add v w = Inr r \<or> calculator_subtract v w = Inr r \<or>
    calculator_multiply v w = Inr r \<or> calculator_divide v w = Inr r \<longrightarrow>
      (\<exists>a b. v = JNum a \<and> w = JNum b \<and>
             \<not> is_nan a \<and> \<not> is_zero a \<and> \<not> is_nan b \<and> \<not> is_zero b)) \<and>
   (\<not> is_nan a \<and> \<not> is_zero a \<and> \<not> is_nan b \<and> \<not> is_zero b \<longrightarrow>
      calculator_add (JNum a) (JNum b) = Inr (JNum (js_add a b)) \<and>
      calculator_subtract (JNum a) (JNum b) = Inr (JNum (js_sub a b)) \<and>
      calculator_multiply (JNum a) (JNum b) = Inr (JNum (js_mul a b)) \<and>
      calculator_divide (JNum a) (JNum b) = Inr (JNum (js_div a b)))"
proof -
  have p1: "calculator_add (JNum d) v = Inl (TypeError ''add expects 2 numbers'') \<and>
      calculator_add v (JNum d) = Inl (TypeError ''add expects 2 numbers'') \<and>
      calculator_subtract (JNum d) v = Inl (TypeError ''subtract expects 2 numbers'') \<and>
      calculator_subtract v (JNum d) = Inl (TypeError ''subtract expects 2 numbers'') \<and>
      calculator_multiply (JNum d) v = Inl (TypeError ''multiply expects 2 numbers'') \<and>
      calculator_multiply v (JNum d) = Inl (TypeError ''multiply expects 2 numbers'') \<and>
      calculator_divide (JNum d) v = Inl (TypeError ''divide expects 2 numbers'') \<and>
      calculator_divide v (JNum d) = Inl (TypeError ''divide expects 2 numbers'')"
    if "is_nan d \<or> d = neg_zero"
  proof -
    have "is_zero d \<or> is_nan d" using that zero_falsy(2) by blast
    then have f: "\<not> ToBoolean (JNum d)" by (rule falsy_number)
    then have l: "\<not> ToBoolean (JNum d) \<or> \<not> ToBoolean v"
      and r: "\<not> ToBoolean v \<or> \<not> ToBoolean (JNum d)"
      by simp_all
    show ?thesis using calc_falsy [OF l] calc_falsy [OF r] by simp
  qed
  have p2: "\<exists>a b. v = JNum a \<and> w = JNum b \<and>
             \<not> is_nan a \<and> \<not> is_zero a \<and> \<not> is_nan b \<and> \<not> is_zero b"
    if "calculator_add v w = Inr r \<or> calculator_subtract v w = Inr r \<or>
        calculator_multiply v w = Inr r \<or> calculator_divide v w = Inr r"
  proof (rule ccontr)
    assume "\<not> (\<exists>a b. v = JNum a \<and> w = JNum b \<and>
             \<not> is_nan a \<and> \<not> is_zero a \<and> \<not> is_nan b \<and> \<not> is_zero b)"
    then have "\<not> (\<exists>a b. v = JNum a \<and> w = JNum b \<and>
             \<not> is_zero a \<and> \<not> is_nan a \<and> \<not> is_zero b \<and> \<not> is_nan b)"
      by blast
    from calc_error [OF this] that show False by simp
  qed
  have p3: "calculator_add (JNum a) (JNum b) = Inr (JNum (js_add a b)) \<and>
      calculator_subtract (JNum a) (JNum b) = Inr (JNum (js_sub a b)) \<and>
      calculator_multiply (JNum a) (JNum b) = Inr (JNum (js_mul a b)) \<and>
      calculator_divide (JNum a) (JNum b) = Inr (JNum (js_div a b))"
    if "\<not> is_nan a \<and> \<not> is_zero a \<and> \<not> is_nan b \<and> \<not> is_zero b"
  proof -
    have "\<exists>a' b'. JNum a = JNum a' \<and> JNum b = JNum b' \<and>
            \<not> is_zero a' \<and> \<not> is_nan a' \<and> \<not> is_zero b' \<and> \<not> is_nan b'"
      using that by blast
    from calc_result [OF this] show ?thesis by simp
  qed
  show ?thesis using p1 p2 p3 by blast
qed

theorem calculator_rejects_nan_and_negative_zero_witness:
  "calculator_multiply (JNum NaN) (JNum (double_of_int 2)) =
     Inl (TypeError ''multiply expects 2 numbers'') \<and>
   calculator_subtract (JNum (double_of_int 2)) (JNum neg_zero) =
     Inl (TypeError ''subtract expects 2 numbers'') \<and>
   calculator_add (JNum (double_of_int 2)) (JNum (double_of_int 2)) =
     Inr (JNum (double_of_int 4)) \<and>
   (\<exists>a b. JNum (double_of_int 2) = JNum a \<and> JNum (double_of_int 2) = JNum b \<and>
          \<not> is_nan a \<and> \<not> is_zero a \<and> \<not> is_nan b \<and> \<not> is_zero b)"
proof -
  have n: "is_nan NaN" by code_simp
  have t: "\<not> is_nan (double_of_int 2) \<and> \<not> is_zero (double_of_int 2) \<and>
           \<not> is_nan (double_of_int 2) \<and> \<not> is_zero (double_of_int 2)"
    by code_simp
  have s: "js_add (double_of_int 2) (double_of_int 2) = double_of_int 4" by code_simp
  have "calculator_multiply (JNum NaN) (JNum (double_of_int 2)) =
          Inl (TypeError ''multiply expects 2 numbers'')"
    using calculator_rejects_nan_and_negative_zero [of NaN "JNum (double_of_int 2)"] n by blast
  moreover have "calculator_subtract (JNum (double_of_int 2)) (JNum neg_zero) =
          Inl (TypeError ''subtract expects 2 numbers'')"
    using calculator_rejects_nan_and_negative_zero [of neg_zero "JNum (double_of_int 2)"] by blast
  moreover have r: "calculator_add (JNum (double_of_int 2)) (JNum (double_of_int 2)) =
          Inr (JNum (double_of_int 4))"
    using calculator_rejects_nan_and_negative_zero
      [of _ _ _ _ "double_of_int 2" "double_of_int 2"] t unfolding s by blast
  moreover have "\<exists>a b. JNum (double_of_int 2) = JNum a \<and> JNum (double_of_int 2) = JNum b \<and>
          \<not> is_nan a \<and> \<not> is_zero a \<and> \<not> is_nan b \<and> \<not> is_zero b"
    using calculator_rejects_nan_and_negative_zero
      [of _ "JNum (double_of_int 2)" "JNum (double_of_int 2)" "JNum (double_of_int 4)"] r
    by blast
  ultimately show ?thesis by blast
qed

end
